theory Spec2Isabelle
  imports Main "HOL-Library.AList"
begin

section \<open>The refinement pipeline of \<^verbatim>\<open>automation-engine.ts\<close>\<close>

text \<open>
  The development embeds the four exported functions \<^verbatim>\<open>deduceGoal\<close>,
  \<^verbatim>\<open>traceBackward\<close>, \<^verbatim>\<open>pruneNoise\<close> and \<^verbatim>\<open>processRecording\<close> of
  \<^verbatim>\<open>src/automation-engine.ts\<close> and the interface \<^verbatim>\<open>RecordedAction\<close> of
  \<^verbatim>\<open>src/src/App.tsx\<close>.

  Conventions of the embedding:
  \<^item> a JavaScript string is a \<open>string\<close>; its characters are read as the code units
    U+0000 to U+00FF;
  \<^item> a timestamp is an \<open>int\<close> (the log carries integer millisecond stamps);
  \<^item> the field \<^verbatim>\<open>value?: string | boolean\<close> is the datatype \<open>jsvalue\<close>, with
    \<open>Undefined\<close> for an absent value;
  \<^item> the field \<^verbatim>\<open>type\<close> is kept as the string it is at run time, so that a kind
    outside \<^verbatim>\<open>"click" | "input" | "toggle"\<close> can be written down;
  \<^item> a \<^verbatim>\<open>Map\<close> is an association list in insertion order: \<^verbatim>\<open>set\<close> on a key
    that is present replaces the value in place, on a new key it appends
    (\<open>AList.update\<close>); \<^verbatim>\<open>get\<close> is \<open>map_of\<close>; \<^verbatim>\<open>values()\<close> is \<open>map snd\<close>;
  \<^item> \<^verbatim>\<open>forEach\<close> is \<open>fold\<close> of the callback, the mutated structure being the
    folded state;
  \<^item> the plain object \<^verbatim>\<open>formValues\<close> is an association list as well; the order of
    its keys is not observed by the pipeline (\<^verbatim>\<open>Object.keys\<close> only feeds a \<^verbatim>\<open>Set\<close>
    that is queried with \<^verbatim>\<open>has\<close>), and the \<^verbatim>\<open>Set\<close> is a HOL set;
  \<^item> \<^verbatim>\<open>Date.now()\<close> is the extra argument \<open>now\<close>.
\<close>

subsection \<open>Data\<close>

datatype jsvalue = Undefined | Str string | Bool bool

record FinalState =
  completedTasks :: "string list"
  formValues :: "(string \<times> string) list"
  timestamp :: int

record RecordedAction =
  type :: string
  target :: string
  val :: jsvalue
  timestamp :: int

text \<open>The entry \<^verbatim>\<open>{ value: any; timestamp: number }\<close> of \<^verbatim>\<open>targetStates\<close> is a pair.\<close>

type_synonym TargetState = "jsvalue \<times> int"

subsection \<open>String primitives\<close>

text \<open>
  \<^verbatim>\<open>String.prototype.trim\<close> strips white space and line terminators from both ends;
  below U+0100 these are TAB, LF, VT, FF, CR, SPACE and NBSP.
\<close>

definition isWhiteSpace :: "char \<Rightarrow> bool" where
  "isWhiteSpace c =
     (c \<in> set [CHR 0x09, CHR 0x0A, CHR 0x0B, CHR 0x0C, CHR 0x0D, CHR 0x20, CHR 0xA0])"

definition trim :: "string \<Rightarrow> string" where
  "trim s = rev (dropWhile isWhiteSpace (rev (dropWhile isWhiteSpace s)))"

definition startsWith :: "string \<Rightarrow> string \<Rightarrow> bool" where
  "startsWith s p = (take (length p) s = p)"

text \<open>
  The template literal \<^verbatim>\<open>`${action.timestamp}-${action.target}`\<close> renders the
  timestamp in decimal, with a leading minus sign when negative.
\<close>

definition digitChar :: "nat \<Rightarrow> char" where
  "digitChar d = char_of (48 + d)"

fun digits :: "nat \<Rightarrow> string" where
  "digits n = (if n < 10 then [digitChar n] else digits (n div 10) @ [digitChar (n mod 10)])"

declare digits.simps [simp del]

definition numberToString :: "int \<Rightarrow> string" where
  "numberToString i = (if i < 0 then CHR ''-'' # digits (nat (- i)) else digits (nat i))"

subsection \<open>Plain objects used as dictionaries\<close>

text \<open>
  \<^verbatim>\<open>formValues\<close> is a plain object. Writing a string to its property
  \<^verbatim>\<open>__proto__\<close> runs the inherited setter, which ignores a value that is not an
  object, so no own property appears. Reading a property that is not an own property
  gives \<^verbatim>\<open>undefined\<close>, except for the names inherited from \<^verbatim>\<open>Object.prototype\<close>,
  whose values are functions or objects and so are \<^verbatim>\<open>===\<close> to no \<open>jsvalue\<close>.
\<close>

definition setProperty :: "string \<Rightarrow> string \<Rightarrow> (string \<times> string) list \<Rightarrow> (string \<times> string) list" where
  "setProperty k v obj = (if k = ''__proto__'' then obj else AList.update k v obj)"

definition inheritedNames :: "string list" where
  "inheritedNames =
     [''__proto__'', ''constructor'', ''hasOwnProperty'', ''isPrototypeOf'',
      ''propertyIsEnumerable'', ''toLocaleString'', ''toString'', ''valueOf'',
      ''__defineGetter__'', ''__defineSetter__'', ''__lookupGetter__'', ''__lookupSetter__'']"

text \<open>\<open>propertyIs v obj k\<close> is the test \<^verbatim>\<open>v === obj[k]\<close>.\<close>

definition propertyIs :: "jsvalue \<Rightarrow> (string \<times> string) list \<Rightarrow> string \<Rightarrow> bool" where
  "propertyIs v obj k =
     (case map_of obj k of
        Some s \<Rightarrow> v = Str s
      | None \<Rightarrow> k \<notin> set inheritedNames \<and> v = Undefined)"

subsection \<open>Module 1: \<^verbatim>\<open>deduceGoal\<close>\<close>

text \<open>The callback of the first \<^verbatim>\<open>forEach\<close> (source lines 26 to 36).\<close>

definition recordState :: "RecordedAction \<Rightarrow> (string \<times> TargetState) list \<Rightarrow> (string \<times> TargetState) list" where
  "recordState action targetStates =
     (case map_of targetStates (target action) of
        None \<Rightarrow> AList.update (target action) (val action, timestamp action) targetStates
      | Some existing \<Rightarrow>
          if timestamp action > snd existing
          then AList.update (target action) (val action, timestamp action) targetStates
          else targetStates)"

definition targetStatesOf :: "RecordedAction list \<Rightarrow> (string \<times> TargetState) list" where
  "targetStatesOf actions = fold recordState actions []"

text \<open>The callback of the second \<^verbatim>\<open>forEach\<close> (source lines 39 to 45).\<close>

definition buildState :: "string \<times> TargetState \<Rightarrow> FinalState \<Rightarrow> FinalState" where
  "buildState entry finalState =
     (let target = fst entry; state = snd entry in
      if startsWith target ''task-'' \<and> fst state = Bool True
      then finalState\<lparr>completedTasks := completedTasks finalState @ [target]\<rparr>
      else (case fst state of
              Str s \<Rightarrow>
                if trim s \<noteq> ''''
                then finalState\<lparr>formValues := setProperty target s (formValues finalState)\<rparr>
                else finalState
            | _ \<Rightarrow> finalState))"

definition deduceGoal :: "int \<Rightarrow> RecordedAction list \<Rightarrow> FinalState" where
  "deduceGoal now actions =
     fold buildState (targetStatesOf actions)
       \<lparr>completedTasks = [], formValues = [], timestamp = now\<rparr>"

subsection \<open>Module 2: \<^verbatim>\<open>traceBackward\<close>\<close>

definition necessaryTargets :: "FinalState \<Rightarrow> string set" where
  "necessaryTargets goal =
     fold insert (map fst (formValues goal)) (fold insert (completedTasks goal) {})"

definition shouldKeep :: "FinalState \<Rightarrow> RecordedAction \<Rightarrow> bool" where
  "shouldKeep goal action =
     ((type action = ''toggle'' \<and> target action \<in> set (completedTasks goal)) \<or>
      (type action = ''input'' \<and> propertyIs (val action) (formValues goal) (target action)))"

text \<open>The callback of the \<^verbatim>\<open>forEach\<close> of source lines 70 to 85.\<close>

definition traceStep :: "FinalState \<Rightarrow> RecordedAction \<Rightarrow> (string \<times> RecordedAction) list \<Rightarrow> (string \<times> RecordedAction) list" where
  "traceStep goal action targetToLastAction =
     (if target action \<in> necessaryTargets goal
      then (case map_of targetToLastAction (target action) of
              None \<Rightarrow>
                if shouldKeep goal action
                then AList.update (target action) action targetToLastAction
                else targetToLastAction
            | Some existing \<Rightarrow>
                if timestamp action > timestamp existing
                then (if shouldKeep goal action
                      then AList.update (target action) action targetToLastAction
                      else targetToLastAction)
                else targetToLastAction)
      else targetToLastAction)"

text \<open>
  \<^verbatim>\<open>Array.prototype.sort\<close> is stable; with the comparator
  \<^verbatim>\<open>(a, b) => a.timestamp - b.timestamp\<close> it is the stable sort on the key
  \<open>timestamp\<close>.
\<close>

definition traceBackward :: "RecordedAction list \<Rightarrow> FinalState \<Rightarrow> RecordedAction list" where
  "traceBackward actions goal =
     sort_key timestamp (map snd (fold (traceStep goal) actions []))"

subsection \<open>Module 3: \<^verbatim>\<open>pruneNoise\<close>\<close>

definition actionKey :: "RecordedAction \<Rightarrow> string" where
  "actionKey action = numberToString (timestamp action) @ ''-'' @ target action"

text \<open>The callback of the \<^verbatim>\<open>forEach\<close> of source lines 118 to 125.\<close>

definition uniqueStep :: "RecordedAction \<Rightarrow> (string \<times> RecordedAction) list \<Rightarrow> (string \<times> RecordedAction) list" where
  "uniqueStep action uniqueTargets =
     (case map_of uniqueTargets (target action) of
        None \<Rightarrow> AList.update (target action) action uniqueTargets
      | Some existing \<Rightarrow>
          if timestamp action > timestamp existing
          then AList.update (target action) action uniqueTargets
          else uniqueTargets)"

definition pruneNoise :: "RecordedAction list \<Rightarrow> RecordedAction list \<Rightarrow> RecordedAction list" where
  "pruneNoise rawLog keepList =
     (let keepSet = set (map actionKey keepList);
          refinedScript = filter (\<lambda>action. actionKey action \<in> keepSet) rawLog
      in sort_key timestamp (map snd (fold uniqueStep refinedScript [])))"

subsection \<open>The orchestrator \<^verbatim>\<open>processRecording\<close>\<close>

definition processRecording :: "int \<Rightarrow> RecordedAction list \<Rightarrow> RecordedAction list" where
  "processRecording now rawLog =
     (if length rawLog = 0 then []
      else let goal = deduceGoal now rawLog;
               keepList = traceBackward rawLog goal
           in pruneNoise rawLog keepList)"

subsection \<open>Exceptions\<close>

text \<open>
  The source has no \<^verbatim>\<open>throw\<close>. On records whose kind and target are strings and
  whose value is absent, a string or a boolean, the one operation of the four functions
  that can raise is the method call \<^verbatim>\<open>state.value.trim()\<close> of source line 42:
  \<^verbatim>\<open>undefined\<close> has no properties and a boolean has no method \<^verbatim>\<open>trim\<close>, so the call
  raises a \<^verbatim>\<open>TypeError\<close> on both. Every other operation (reading a field of a record,
  the \<^verbatim>\<open>Map\<close>, \<^verbatim>\<open>Set\<close> and array methods, the comparisons, the subtraction of two
  numbers, \<^verbatim>\<open>startsWith\<close> on a string, the template literal on a number and a string)
  returns on all such values.

  The definitions below repeat \<^verbatim>\<open>deduceGoal\<close> and \<^verbatim>\<open>processRecording\<close> with that call
  as a value of \<open>error + string\<close>; an exception raised inside a \<^verbatim>\<open>forEach\<close> callback
  ends the loop and the function. In \<open>buildStateE\<close> the case on \<open>Str\<close> is the guard
  \<^verbatim>\<open>typeof state.value === 'string'\<close>; the call on its right is evaluated only when
  the guard holds.
\<close>

datatype error = TypeError

definition callTrim :: "jsvalue \<Rightarrow> error + string" where
  "callTrim v = (case v of Str s \<Rightarrow> Inr (trim s) | _ \<Rightarrow> Inl TypeError)"

definition buildStateE :: "string \<times> TargetState \<Rightarrow> FinalState \<Rightarrow> error + FinalState" where
  "buildStateE entry finalState =
     (let target = fst entry; state = snd entry in
      if startsWith target ''task-'' \<and> fst state = Bool True
      then Inr (finalState\<lparr>completedTasks := completedTasks finalState @ [target]\<rparr>)
      else (case fst state of
              Str s \<Rightarrow>
                (case callTrim (fst state) of
                   Inl e \<Rightarrow> Inl e
                 | Inr trimmed \<Rightarrow>
                     if trimmed \<noteq> ''''
                     then Inr (finalState\<lparr>formValues := setProperty target s (formValues finalState)\<rparr>)
                     else Inr finalState)
            | _ \<Rightarrow> Inr finalState))"

fun forEachE :: "('a \<Rightarrow> 's \<Rightarrow> error + 's) \<Rightarrow> 'a list \<Rightarrow> 's \<Rightarrow> error + 's" where
  "forEachE f [] s = Inr s"
| "forEachE f (x # xs) s = (case f x s of Inl e \<Rightarrow> Inl e | Inr s' \<Rightarrow> forEachE f xs s')"

definition deduceGoalE :: "int \<Rightarrow> RecordedAction list \<Rightarrow> error + FinalState" where
  "deduceGoalE now actions =
     forEachE buildStateE (targetStatesOf actions)
       \<lparr>completedTasks = [], formValues = [], timestamp = now\<rparr>"

definition processRecordingE :: "int \<Rightarrow> RecordedAction list \<Rightarrow> error + RecordedAction list" where
  "processRecordingE now rawLog =
     (if length rawLog = 0 then Inr []
      else (case deduceGoalE now rawLog of
              Inl e \<Rightarrow> Inl e
            | Inr goal \<Rightarrow> Inr (pruneNoise rawLog (traceBackward rawLog goal))))"

section \<open>Auxiliary notions for the proofs\<close>

text \<open>
  \<open>pick T xs\<close> is the record a "keep the newer one" loop retains for the target \<open>T\<close>
  over the list \<open>xs\<close>: the candidate is replaced only by a record with a strictly
  greater timestamp. All three loops of the source compute it.
\<close>

definition pickStep :: "string \<Rightarrow> RecordedAction \<Rightarrow> RecordedAction option \<Rightarrow> RecordedAction option" where
  "pickStep T a best =
     (if target a = T \<and> (case best of None \<Rightarrow> True | Some e \<Rightarrow> timestamp a > timestamp e)
      then Some a else best)"

definition pick :: "string \<Rightarrow> RecordedAction list \<Rightarrow> RecordedAction option" where
  "pick T xs = fold (pickStep T) xs None"

text \<open>The condition under which the loop of \<^verbatim>\<open>traceBackward\<close> considers a record at all.\<close>

definition goalMatch :: "FinalState \<Rightarrow> RecordedAction \<Rightarrow> bool" where
  "goalMatch goal a = (target a \<in> necessaryTargets goal \<and> shouldKeep goal a)"

text \<open>What \<^verbatim>\<open>deduceGoal\<close> stores of a record.\<close>

definition stateOf :: "RecordedAction \<Rightarrow> TargetState" where
  "stateOf a = (val a, timestamp a)"

text \<open>
  The two branches of the classification in \<^verbatim>\<open>deduceGoal\<close>, as functions of a target
  and its retained value: whether the target is pushed to \<^verbatim>\<open>completedTasks\<close>, and
  the entry that is written to \<^verbatim>\<open>formValues\<close>, if any.
\<close>

definition taskDone :: "string \<Rightarrow> jsvalue \<Rightarrow> bool" where
  "taskDone T v = (startsWith T ''task-'' \<and> v = Bool True)"

definition formEntry :: "string \<Rightarrow> jsvalue \<Rightarrow> string option" where
  "formEntry T v =
     (case v of Str s \<Rightarrow> if trim s \<noteq> '''' \<and> T \<noteq> ''__proto__'' then Some s else None
      | _ \<Rightarrow> None)"

text \<open>
  A record's value fits its kind when a record carrying \<^verbatim>\<open>true\<close> is a state-toggle and
  a record carrying a string is a text-input. Every log whose values have the type the
  data model gives their kind (no value for \<^verbatim>\<open>click\<close>, a string for \<^verbatim>\<open>input\<close>, a
  boolean for \<^verbatim>\<open>toggle\<close>) satisfies it.
\<close>

definition valueFitsKind :: "RecordedAction \<Rightarrow> bool" where
  "valueFitsKind a =
     (case val a of
        Bool b \<Rightarrow> (if b then type a = ''toggle'' else True)
      | Str s \<Rightarrow> type a = ''input''
      | Undefined \<Rightarrow> True)"

section \<open>Values and kinds\<close>

text \<open>A record whose value has the type of its kind fits its kind.\<close>

lemma wellTyped_fits:
  "(type a = ''click'' \<and> val a = Undefined) \<or>
   (type a = ''input'' \<and> (\<exists>s. val a = Str s)) \<or>
   (type a = ''toggle'' \<and> (\<exists>b. val a = Bool b)) \<Longrightarrow> valueFitsKind a"
  by (auto simp: valueFitsKind_def)

section \<open>The loops as selections\<close>

lemma pick_snoc: "pick T (xs @ [a]) = pickStep T a (pick T xs)"
  by (simp add: pick_def)

lemma fold_pickStep_None:
  "fold (pickStep T) xs s = None \<longleftrightarrow> s = None \<and> T \<notin> target ` set xs"
  by (induction xs arbitrary: s) (auto simp: pickStep_def split: option.splits)

lemma pick_None: "pick T xs = None \<longleftrightarrow> T \<notin> target ` set xs"
  by (simp add: pick_def fold_pickStep_None)

lemma fold_pickStep_stays:
  "\<forall>a\<in>set zs. target a = T \<longrightarrow> timestamp a \<le> timestamp g \<Longrightarrow>
   fold (pickStep T) zs (Some g) = Some g"
  by (induction zs) (auto simp: pickStep_def)

lemma fold_pickStep_below:
  "\<forall>a\<in>set ys. target a = T \<longrightarrow> timestamp a < t \<Longrightarrow>
   (case s of None \<Rightarrow> True | Some e \<Rightarrow> timestamp e < t) \<Longrightarrow>
   (case fold (pickStep T) ys s of None \<Rightarrow> True | Some e \<Rightarrow> timestamp e < t)"
  by (induction ys arbitrary: s) (auto simp: pickStep_def split: option.splits)

lemma pick_splitI:
  assumes "target g = T"
    and "\<forall>a\<in>set ys. target a = T \<longrightarrow> timestamp a < timestamp g"
    and "\<forall>a\<in>set zs. target a = T \<longrightarrow> timestamp a \<le> timestamp g"
  shows "pick T (ys @ g # zs) = Some g"
proof -
  have "case fold (pickStep T) ys None of None \<Rightarrow> True | Some e \<Rightarrow> timestamp e < timestamp g"
    using fold_pickStep_below [OF assms(2), of None] by simp
  then have "pickStep T g (fold (pickStep T) ys None) = Some g"
    using assms(1) by (simp add: pickStep_def split: option.splits)
  then show ?thesis
    using fold_pickStep_stays [OF assms(3)] by (simp add: pick_def)
qed

lemma pick_splitD:
  "pick T xs = Some g \<Longrightarrow>
   \<exists>ys zs. xs = ys @ g # zs \<and> target g = T \<and>
     (\<forall>a\<in>set ys. target a = T \<longrightarrow> timestamp a < timestamp g) \<and>
     (\<forall>a\<in>set zs. target a = T \<longrightarrow> timestamp a \<le> timestamp g)"
proof (induction xs arbitrary: g rule: rev_induct)
  case Nil
  then show ?case by (simp add: pick_def)
next
  case (snoc a xs)
  show ?case
  proof (cases "pick T xs")
    case None
    then have no: "\<forall>b\<in>set xs. target b \<noteq> T" by (auto simp: pick_None)
    from snoc.prems None have "g = a" "target a = T"
      by (auto simp: pick_snoc pickStep_def split: if_splits)
    with no have "xs @ [a] = xs @ g # [] \<and> target g = T \<and>
        (\<forall>b\<in>set xs. target b = T \<longrightarrow> timestamp b < timestamp g) \<and>
        (\<forall>b\<in>set []. target b = T \<longrightarrow> timestamp b \<le> timestamp g)"
      by auto
    then show ?thesis by blast
  next
    case (Some e)
    from snoc.IH [OF Some] obtain ys zs where
      split: "xs = ys @ e # zs" "target e = T"
        "\<forall>b\<in>set ys. target b = T \<longrightarrow> timestamp b < timestamp e"
        "\<forall>b\<in>set zs. target b = T \<longrightarrow> timestamp b \<le> timestamp e"
      by blast
    show ?thesis
    proof (cases "target a = T \<and> timestamp a > timestamp e")
      case True
      with snoc.prems Some have "g = a" by (simp add: pick_snoc pickStep_def)
      with True split have "xs @ [a] = xs @ g # [] \<and> target g = T \<and>
        (\<forall>b\<in>set xs. target b = T \<longrightarrow> timestamp b < timestamp g) \<and>
        (\<forall>b\<in>set []. target b = T \<longrightarrow> timestamp b \<le> timestamp g)"
        by fastforce
      then show ?thesis by blast
    next
      case False
      with snoc.prems Some have "g = e" by (auto simp: pick_snoc pickStep_def)
      with False split have "xs @ [a] = ys @ g # (zs @ [a]) \<and> target g = T \<and>
        (\<forall>b\<in>set ys. target b = T \<longrightarrow> timestamp b < timestamp g) \<and>
        (\<forall>b\<in>set (zs @ [a]). target b = T \<longrightarrow> timestamp b \<le> timestamp g)"
        by fastforce
      then show ?thesis by blast
    qed
  qed
qed

lemma pick_filter:
  assumes "pick T xs = Some g" "P g"
  shows "pick T (filter P xs) = Some g"
proof -
  from pick_splitD [OF assms(1)] obtain ys zs where
    split: "xs = ys @ g # zs" "target g = T"
      "\<forall>b\<in>set ys. target b = T \<longrightarrow> timestamp b < timestamp g"
      "\<forall>b\<in>set zs. target b = T \<longrightarrow> timestamp b \<le> timestamp g"
    by blast
  have "filter P xs = filter P ys @ g # filter P zs"
    using split(1) assms(2) by simp
  moreover have "pick T (filter P ys @ g # filter P zs) = Some g"
    by (rule pick_splitI) (use split in auto)
  ultimately show ?thesis by simp
qed

lemma pick_mem: "pick T xs = Some g \<Longrightarrow> g \<in> set xs \<and> target g = T"
  using pick_splitD by fastforce

lemma pick_greatest:
  "pick T xs = Some g \<Longrightarrow> a \<in> set xs \<Longrightarrow> target a = T \<Longrightarrow> timestamp a \<le> timestamp g"
  using pick_splitD [of T xs g] by fastforce

subsection \<open>The three loops compute \<open>pick\<close>\<close>

lemma map_of_uniqueStep:
  "map_of (uniqueStep a m) T = pickStep T a (map_of m T)"
  by (auto simp: uniqueStep_def pickStep_def update_conv' split: option.splits)

lemma map_of_fold_uniqueStep:
  "map_of (fold uniqueStep xs m) T = fold (pickStep T) xs (map_of m T)"
  by (induction xs arbitrary: m) (simp_all add: map_of_uniqueStep)

lemma map_of_unique: "map_of (fold uniqueStep xs []) T = pick T xs"
  by (simp add: map_of_fold_uniqueStep pick_def)

lemma distinct_uniqueStep:
  "distinct (map fst m) \<Longrightarrow> distinct (map fst (uniqueStep a m))"
  by (simp add: uniqueStep_def distinct_update split: option.splits)

lemma distinct_fold_uniqueStep:
  "distinct (map fst m) \<Longrightarrow> distinct (map fst (fold uniqueStep xs m))"
  by (induction xs arbitrary: m) (simp_all add: distinct_uniqueStep)

lemma distinct_unique: "distinct (map fst (fold uniqueStep xs []))"
  by (simp add: distinct_fold_uniqueStep)

lemma unique_entry:
  "(k, a) \<in> set (fold uniqueStep xs []) \<longleftrightarrow> pick k xs = Some a"
  using map_of_eq_Some_iff [OF distinct_unique, of xs k a] by (simp add: map_of_unique)

lemma unique_targets:
  "map target (map snd (fold uniqueStep xs [])) = map fst (fold uniqueStep xs [])"
proof -
  have "\<forall>e\<in>set (fold uniqueStep xs []). target (snd e) = fst e"
  proof
    fix e assume "e \<in> set (fold uniqueStep xs [])"
    then have "pick (fst e) xs = Some (snd e)"
      using unique_entry [of "fst e" "snd e" xs] by simp
    then show "target (snd e) = fst e" by (simp add: pick_mem)
  qed
  then show ?thesis by simp
qed

lemma set_unique:
  "set (map snd (fold uniqueStep xs [])) = {g. \<exists>T. pick T xs = Some g}"
  using unique_entry by (auto simp: image_iff) (metis snd_conv)+

lemma traceStep_uniqueStep:
  "traceStep goal a m = (if goalMatch goal a then uniqueStep a m else m)"
  by (simp add: traceStep_def uniqueStep_def goalMatch_def split: option.splits)

lemma fold_traceStep:
  "fold (traceStep goal) xs m = fold uniqueStep (filter (goalMatch goal) xs) m"
  by (induction xs arbitrary: m) (simp_all add: traceStep_uniqueStep)

lemma map_of_states:
  "map_of (map (\<lambda>e. (fst e, stateOf (snd e))) m) k = map_option stateOf (map_of m k)"
  by (induction m) auto

lemma update_states:
  "AList.update k (stateOf a) (map (\<lambda>e. (fst e, stateOf (snd e))) m) =
   map (\<lambda>e. (fst e, stateOf (snd e))) (AList.update k a m)"
  by (induction m) auto

lemma recordState_uniqueStep:
  "recordState a (map (\<lambda>e. (fst e, stateOf (snd e))) m) =
   map (\<lambda>e. (fst e, stateOf (snd e))) (uniqueStep a m)"
proof (cases "map_of m (target a)")
  case None
  then show ?thesis
    using update_states [of "target a" a m]
    by (simp add: recordState_def uniqueStep_def map_of_states) (simp add: stateOf_def)
next
  case (Some e)
  then show ?thesis
    using update_states [of "target a" a m]
    by (simp add: recordState_def uniqueStep_def map_of_states) (simp add: stateOf_def)
qed

lemma fold_recordState:
  "fold recordState xs (map (\<lambda>e. (fst e, stateOf (snd e))) m) =
   map (\<lambda>e. (fst e, stateOf (snd e))) (fold uniqueStep xs m)"
  by (induction xs arbitrary: m) (simp_all add: recordState_uniqueStep)

lemma targetStatesOf_unique:
  "targetStatesOf xs = map (\<lambda>e. (fst e, stateOf (snd e))) (fold uniqueStep xs [])"
  using fold_recordState [of xs "[]"] by (simp add: targetStatesOf_def)

lemma map_of_targetStatesOf:
  "map_of (targetStatesOf xs) T = map_option stateOf (pick T xs)"
  by (simp add: targetStatesOf_unique map_of_states map_of_unique)

lemma distinct_targetStatesOf: "distinct (map fst (targetStatesOf xs))"
  using distinct_unique [of xs] by (simp add: targetStatesOf_unique comp_def)

subsection \<open>The wall clock\<close>

lemma shouldKeep_timestamp:
  "shouldKeep (goal\<lparr>FinalState.timestamp := n\<rparr>) a = shouldKeep goal a"
  by (simp add: shouldKeep_def)

lemma necessaryTargets_timestamp:
  "necessaryTargets (goal\<lparr>FinalState.timestamp := n\<rparr>) = necessaryTargets goal"
  by (simp add: necessaryTargets_def)

lemma goalMatch_timestamp:
  "goalMatch (goal\<lparr>FinalState.timestamp := n\<rparr>) = goalMatch goal"
  by (intro ext) (simp add: goalMatch_def shouldKeep_timestamp necessaryTargets_timestamp)

lemma buildState_timestamp:
  "buildState e (fs\<lparr>FinalState.timestamp := n\<rparr>) = (buildState e fs)\<lparr>FinalState.timestamp := n\<rparr>"
  by (simp add: buildState_def Let_def split: jsvalue.splits)

lemma fold_buildState_timestamp:
  "fold buildState es (fs\<lparr>FinalState.timestamp := n\<rparr>) = (fold buildState es fs)\<lparr>FinalState.timestamp := n\<rparr>"
  by (induction es arbitrary: fs) (simp_all add: buildState_timestamp)

lemma deduceGoal_now:
  "deduceGoal now actions = (deduceGoal 0 actions)\<lparr>FinalState.timestamp := now\<rparr>"
  using fold_buildState_timestamp
    [where es = "targetStatesOf actions" and n = now
       and fs = "\<lparr>completedTasks = [], formValues = [], timestamp = 0\<rparr>"]
  by (simp add: deduceGoal_def)

lemma traceBackward_unique:
  "traceBackward actions goal =
   sort_key timestamp (map snd (fold uniqueStep (filter (goalMatch goal) actions) []))"
  by (simp add: traceBackward_def fold_traceStep)

lemma traceBackward_now:
  "traceBackward xs (deduceGoal now ys) = traceBackward xs (deduceGoal 0 ys)"
  by (subst deduceGoal_now) (simp only: traceBackward_unique goalMatch_timestamp)

lemma processRecording_now:
  "processRecording now rawLog = processRecording now' rawLog"
  by (simp add: processRecording_def traceBackward_now [of rawLog now]
      traceBackward_now [of rawLog now'])

subsection \<open>Shape of the output of \<^verbatim>\<open>pruneNoise\<close>\<close>

lemma distinct_targets_sort:
  "distinct (map target (sort_key timestamp xs)) = distinct (map target xs)"
  by (simp add: distinct_map)

lemma pruneNoise_distinct: "distinct (map target (pruneNoise rawLog keepList))"
  unfolding pruneNoise_def Let_def distinct_targets_sort unique_targets
  by (rule distinct_unique)

lemma necessaryTargets_eq:
  "necessaryTargets goal = set (completedTasks goal) \<union> fst ` set (formValues goal)"
proof -
  have "fold insert xs A = set xs \<union> A" for xs :: "string list" and A
    by (induction xs arbitrary: A) auto
  then show ?thesis by (auto simp: necessaryTargets_def)
qed

subsection \<open>The key of \<^verbatim>\<open>pruneNoise\<close> identifies timestamp and target\<close>

lemma digitChar_code: "d < 10 \<Longrightarrow> of_char (digitChar d) = 48 + d"
  by (simp add: digitChar_def)

lemma digitChar_inj:
  assumes "a < 10" "b < 10" "digitChar a = digitChar b"
  shows "a = b"
proof -
  have "(of_char (digitChar a) :: nat) = of_char (digitChar b)"
    by (simp only: assms(3))
  then have "48 + a = 48 + b"
    by (simp only: digitChar_code [OF assms(1)] digitChar_code [OF assms(2)])
  then show ?thesis by simp
qed

lemma digitChar_not_minus: "d < 10 \<Longrightarrow> digitChar d \<noteq> CHR ''-''"
  using digitChar_code [of d] by auto

lemma digits_not_minus: "CHR ''-'' \<notin> set (digits n)"
proof (induction n rule: digits.induct)
  case (1 n)
  show ?case
  proof (cases "n < 10")
    case True
    then show ?thesis using digitChar_not_minus [of n] by (subst digits.simps) auto
  next
    case False
    then show ?thesis
      using 1 digitChar_not_minus [of "n mod 10"] by (subst digits.simps) auto
  qed
qed

lemma digits_nonempty: "digits n \<noteq> []"
  by (subst digits.simps) simp

lemma digits_inj: "digits m = digits n \<Longrightarrow> m = n"
proof (induction m arbitrary: n rule: digits.induct)
  case (1 m)
  show ?case
  proof (cases "m < 10")
    case m: True
    show ?thesis
    proof (cases "n < 10")
      case True
      with m 1(2) show ?thesis
        using digitChar_inj [of m n] by (simp add: digits.simps [of m] digits.simps [of n])
    next
      case False
      with m 1(2) digits_nonempty [of "n div 10"] show ?thesis
        by (simp add: digits.simps [of m] digits.simps [of n] Cons_eq_append_conv)
    qed
  next
    case m: False
    show ?thesis
    proof (cases "n < 10")
      case True
      with m 1(2) digits_nonempty [of "m div 10"] show ?thesis
        by (simp add: digits.simps [of m] digits.simps [of n] append_eq_Cons_conv)
    next
      case False
      with m 1(2) have eq: "digits (m div 10) = digits (n div 10)"
        and d: "digitChar (m mod 10) = digitChar (n mod 10)"
        by (simp_all add: digits.simps [of m] digits.simps [of n])
      from 1(1) [OF m eq] have "m div 10 = n div 10" .
      moreover from d have "m mod 10 = n mod 10"
        using digitChar_inj [of "m mod 10" "n mod 10"] by simp
      ultimately show ?thesis by (metis div_mult_mod_eq)
    qed
  qed
qed

lemma minus_separates:
  assumes "CHR ''-'' \<notin> set xs" "CHR ''-'' \<notin> set ys"
    and "xs @ CHR ''-'' # s = ys @ CHR ''-'' # t"
  shows "xs = ys \<and> s = t"
proof -
  have "takeWhile (\<lambda>c. c \<noteq> CHR ''-'') (xs @ CHR ''-'' # s) = xs"
    using assms(1) by (subst takeWhile_append2) auto
  moreover have "takeWhile (\<lambda>c. c \<noteq> CHR ''-'') (ys @ CHR ''-'' # t) = ys"
    using assms(2) by (subst takeWhile_append2) auto
  ultimately have "xs = ys" using assms(3) by simp
  with assms(3) show ?thesis by simp
qed

lemma numberToString_sep:
  assumes "numberToString i @ CHR ''-'' # s = numberToString j @ CHR ''-'' # t"
  shows "i = j \<and> s = t"
proof -
  have hd_digit: "hd (digits n) \<noteq> CHR ''-''" for n
    using digits_not_minus [of n] digits_nonempty [of n] by (cases "digits n") auto
  consider "i < 0" "j < 0" | "0 \<le> i" "0 \<le> j" | "i < 0" "0 \<le> j" | "0 \<le> i" "j < 0"
    by linarith
  then show ?thesis
  proof cases
    case 1
    with assms have "digits (nat (- i)) @ CHR ''-'' # s = digits (nat (- j)) @ CHR ''-'' # t"
      by (simp add: numberToString_def)
    from minus_separates [OF digits_not_minus digits_not_minus this]
    have "digits (nat (- i)) = digits (nat (- j))" "s = t" by simp_all
    with 1 digits_inj [of "nat (- i)" "nat (- j)"] show ?thesis by simp
  next
    case 2
    with assms have "digits (nat i) @ CHR ''-'' # s = digits (nat j) @ CHR ''-'' # t"
      by (simp add: numberToString_def)
    from minus_separates [OF digits_not_minus digits_not_minus this]
    have "digits (nat i) = digits (nat j)" "s = t" by simp_all
    with 2 digits_inj [of "nat i" "nat j"] show ?thesis by simp
  next
    case 3
    with assms have "CHR ''-'' # digits (nat (- i)) @ CHR ''-'' # s = digits (nat j) @ CHR ''-'' # t"
      by (simp add: numberToString_def)
    then have "hd (digits (nat j) @ CHR ''-'' # t) = CHR ''-''" by (metis list.sel(1))
    with hd_digit [of "nat j"] digits_nonempty [of "nat j"] show ?thesis by simp
  next
    case 4
    with assms have "digits (nat i) @ CHR ''-'' # s = CHR ''-'' # digits (nat (- j)) @ CHR ''-'' # t"
      by (simp add: numberToString_def)
    then have "hd (digits (nat i) @ CHR ''-'' # s) = CHR ''-''" by (metis list.sel(1))
    with hd_digit [of "nat i"] digits_nonempty [of "nat i"] show ?thesis by simp
  qed
qed

lemma actionKey_inj:
  "actionKey a = actionKey b \<Longrightarrow> timestamp a = timestamp b \<and> target a = target b"
  using numberToString_sep [of "timestamp a" "target a" "timestamp b" "target b"]
  by (simp add: actionKey_def)

subsection \<open>What \<^verbatim>\<open>deduceGoal\<close> returns\<close>

lemma completedTasks_buildState:
  "completedTasks (buildState e fs) =
   completedTasks fs @ (if taskDone (fst e) (fst (snd e)) then [fst e] else [])"
  by (simp add: buildState_def taskDone_def Let_def split: jsvalue.splits)

lemma completedTasks_fold:
  "completedTasks (fold buildState st fs) =
   completedTasks fs @ map fst (filter (\<lambda>e. taskDone (fst e) (fst (snd e))) st)"
  by (induction st arbitrary: fs) (simp_all add: completedTasks_buildState)

lemma map_of_setProperty:
  "map_of (setProperty k v obj) T =
   (if k = T \<and> T \<noteq> ''__proto__'' then Some v else map_of obj T)"
  by (simp add: setProperty_def update_conv')

lemma formValues_buildState:
  "map_of (formValues (buildState e fs)) T =
   (if fst e = T \<and> formEntry T (fst (snd e)) \<noteq> None then formEntry T (fst (snd e))
    else map_of (formValues fs) T)"
  by (auto simp: buildState_def formEntry_def Let_def map_of_setProperty split: jsvalue.splits)

lemma formValues_fold_absent:
  "T \<notin> fst ` set st \<Longrightarrow>
   map_of (formValues (fold buildState st fs)) T = map_of (formValues fs) T"
proof (induction st arbitrary: fs)
  case Nil
  then show ?case by simp
next
  case (Cons e st)
  then have "fst e \<noteq> T" "T \<notin> fst ` set st" by auto
  then show ?case using Cons.IH [of "buildState e fs"] by (simp add: formValues_buildState)
qed

lemma formValues_fold:
  "distinct (map fst st) \<Longrightarrow> map_of st T = Some (v, t) \<Longrightarrow>
   map_of (formValues (fold buildState st fs)) T =
   (if formEntry T v \<noteq> None then formEntry T v else map_of (formValues fs) T)"
proof (induction st arbitrary: fs)
  case Nil
  then show ?case by simp
next
  case (Cons e st)
  show ?case
  proof (cases "fst e = T")
    case True
    with Cons.prems have e: "snd e = (v, t)" and absent: "T \<notin> fst ` set st"
      by (auto split: if_splits)
    show ?thesis
      using formValues_fold_absent [OF absent, of "buildState e fs"] True e
      by (simp add: formValues_buildState)
  next
    case False
    with Cons.prems have "distinct (map fst st)" "map_of st T = Some (v, t)"
      by (auto split: if_splits)
    from Cons.IH [OF this, of "buildState e fs"] False show ?thesis
      by (simp add: formValues_buildState)
  qed
qed

lemma deduceGoal_completed:
  "T \<in> set (completedTasks (deduceGoal now xs)) \<longleftrightarrow>
   (\<exists>g. pick T xs = Some g \<and> taskDone T (val g))"
proof -
  have "T \<in> set (completedTasks (deduceGoal now xs)) \<longleftrightarrow>
        (\<exists>s. (T, s) \<in> set (targetStatesOf xs) \<and> taskDone T (fst s))"
    by (force simp: deduceGoal_def completedTasks_fold)
  also have "\<dots> \<longleftrightarrow> (\<exists>s. map_of (targetStatesOf xs) T = Some s \<and> taskDone T (fst s))"
    by (simp add: map_of_eq_Some_iff [OF distinct_targetStatesOf])
  also have "\<dots> \<longleftrightarrow> (\<exists>g. pick T xs = Some g \<and> taskDone T (val g))"
    by (auto simp: map_of_targetStatesOf stateOf_def)
  finally show ?thesis .
qed

lemma deduceGoal_formValues:
  "map_of (formValues (deduceGoal now xs)) T =
   (case pick T xs of None \<Rightarrow> None | Some g \<Rightarrow> formEntry T (val g))"
proof (cases "pick T xs")
  case None
  then have "map_of (targetStatesOf xs) T = None" by (simp add: map_of_targetStatesOf)
  then have "T \<notin> fst ` set (targetStatesOf xs)" by (simp add: map_of_eq_None_iff)
  from formValues_fold_absent [OF this] None show ?thesis by (simp add: deduceGoal_def)
next
  case (Some g)
  then have "map_of (targetStatesOf xs) T = Some (val g, timestamp g)"
    by (simp add: map_of_targetStatesOf stateOf_def)
  from formValues_fold [OF distinct_targetStatesOf this] Some show ?thesis
    by (auto simp: deduceGoal_def)
qed

subsection \<open>Refining a log without repeated targets\<close>

lemma update_fresh: "k \<notin> fst ` set m \<Longrightarrow> AList.update k v m = m @ [(k, v)]"
  by (induction m) auto

lemma fold_uniqueStep_distinct:
  "distinct (map target xs) \<Longrightarrow> fold uniqueStep xs [] = map (\<lambda>a. (target a, a)) xs"
proof (induction xs rule: rev_induct)
  case Nil
  then show ?case by simp
next
  case (snoc a xs)
  then have IH: "fold uniqueStep xs [] = map (\<lambda>a. (target a, a)) xs"
    and fresh: "target a \<notin> target ` set xs" by auto
  from fresh have k: "target a \<notin> fst ` set (map (\<lambda>a. (target a, a)) xs)"
    by (auto simp: image_iff)
  then have "map_of (map (\<lambda>a. (target a, a)) xs) (target a) = None"
    by (simp add: map_of_eq_None_iff)
  then have "uniqueStep a (map (\<lambda>a. (target a, a)) xs) = map (\<lambda>a. (target a, a)) xs @ [(target a, a)]"
    using update_fresh [OF k, of a] by (simp add: uniqueStep_def)
  then show ?case by (simp add: IH)
qed

lemma unique_values_distinct:
  "distinct (map target xs) \<Longrightarrow> map snd (fold uniqueStep xs []) = xs"
  by (simp add: fold_uniqueStep_distinct comp_def)

lemma pick_distinct:
  "distinct (map target xs) \<Longrightarrow> a \<in> set xs \<Longrightarrow> pick (target a) xs = Some a"
  using unique_entry [of "target a" a xs] by (auto simp: fold_uniqueStep_distinct)

lemma refine_clean:
  assumes d: "distinct (map target xs)" and s: "sorted (map timestamp xs)"
  shows "pruneNoise xs (traceBackward xs goal) = filter (goalMatch goal) xs"
proof -
  let ?ys = "filter (goalMatch goal) xs"
  have dy: "distinct (map target ?ys)" using d by (simp add: distinct_map_filter)
  have sy: "sorted (map timestamp ?ys)" using s by (simp add: sorted_filter)
  have keep: "traceBackward xs goal = ?ys"
    by (simp add: traceBackward_unique unique_values_distinct [OF dy] sort_key_id_if_sorted [OF sy])
  have "actionKey a \<in> set (map actionKey ?ys) \<longleftrightarrow> goalMatch goal a" if "a \<in> set xs" for a
  proof
    assume "actionKey a \<in> set (map actionKey ?ys)"
    then obtain b where b: "b \<in> set xs" "goalMatch goal b" "actionKey a = actionKey b"
      by auto
    then have "target a = target b" using actionKey_inj by blast
    with d that b(1) have "a = b" by (auto simp: distinct_map dest: inj_onD)
    with b(2) show "goalMatch goal a" by simp
  next
    assume "goalMatch goal a"
    with that show "actionKey a \<in> set (map actionKey ?ys)" by simp
  qed
  then have "filter (\<lambda>a. actionKey a \<in> set (map actionKey ?ys)) xs = ?ys"
    by (auto intro: filter_cong)
  then show ?thesis
    by (simp add: pruneNoise_def keep Let_def del: set_map
        add: unique_values_distinct [OF dy] sort_key_id_if_sorted [OF sy])
qed

lemma pruneNoise_sorted: "sorted (map timestamp (pruneNoise rawLog keepList))"
  by (simp add: pruneNoise_def Let_def)

lemma refined_distinct: "distinct (map target (processRecording now rawLog))"
  by (simp add: processRecording_def pruneNoise_distinct Let_def)

lemma refined_sorted: "sorted (map timestamp (processRecording now rawLog))"
  by (simp add: processRecording_def pruneNoise_sorted Let_def)

lemma rerefine_filter:
  "processRecording now (processRecording now rawLog) =
   filter (goalMatch (deduceGoal now (processRecording now rawLog))) (processRecording now rawLog)"
proof (cases "processRecording now rawLog = []")
  case True
  then show ?thesis by (simp add: processRecording_def)
next
  case False
  then show ?thesis
    using refine_clean [OF refined_distinct refined_sorted,
        of now rawLog "deduceGoal now (processRecording now rawLog)"]
    by (subst processRecording_def) (simp add: Let_def)
qed

subsection \<open>The records of a Refined Script match its own goal\<close>

lemma goal_record_matches:
  assumes fits: "\<forall>a\<in>set xs. valueFitsKind a"
    and nec: "T \<in> necessaryTargets (deduceGoal now xs)"
  shows "\<exists>g. pick T xs = Some g \<and> goalMatch (deduceGoal now xs) g \<and>
           ((taskDone T (val g) \<and> type g = ''toggle'') \<or>
            (formEntry T (val g) \<noteq> None \<and> type g = ''input''))"
proof (cases "T \<in> set (completedTasks (deduceGoal now xs))")
  case True
  then obtain g where g: "pick T xs = Some g" "taskDone T (val g)"
    by (auto simp: deduceGoal_completed)
  then have mem: "g \<in> set xs" "target g = T" by (simp_all add: pick_mem)
  with fits g(2) have "type g = ''toggle''"
    by (auto simp: valueFitsKind_def taskDone_def)
  with g mem True nec show ?thesis
    by (auto simp: goalMatch_def shouldKeep_def)
next
  case False
  with nec have "T \<in> fst ` set (formValues (deduceGoal now xs))"
    by (simp add: necessaryTargets_eq)
  then obtain s where s: "map_of (formValues (deduceGoal now xs)) T = Some s"
    using weak_map_of_SomeI by fastforce
  then obtain g where g: "pick T xs = Some g" "formEntry T (val g) = Some s"
    by (auto simp: deduceGoal_formValues split: option.splits)
  then have mem: "g \<in> set xs" "target g = T" by (simp_all add: pick_mem)
  from g(2) have v: "val g = Str s"
    by (auto simp: formEntry_def split: jsvalue.splits if_splits)
  with fits mem(1) have "type g = ''input''"
    by (auto simp: valueFitsKind_def)
  with g mem nec s v show ?thesis
    by (auto simp: goalMatch_def shouldKeep_def propertyIs_def)
qed

lemma set_pruneNoise:
  "set (pruneNoise rawLog keepList) =
   {g. \<exists>T. pick T (filter (\<lambda>a. actionKey a \<in> set (map actionKey keepList)) rawLog) = Some g}"
  by (simp add: pruneNoise_def Let_def set_unique del: set_map)

lemma set_traceBackward:
  "set (traceBackward actions goal) = {g. \<exists>T. pick T (filter (goalMatch goal) actions) = Some g}"
  by (simp add: traceBackward_unique set_unique del: set_map)

lemma refined_is_goal_record:
  assumes fits: "\<forall>a\<in>set xs. valueFitsKind a"
    and r: "r \<in> set (processRecording now xs)"
  shows "\<exists>g. r = g \<and> pick (target r) xs = Some g \<and>
           ((taskDone (target r) (val g) \<and> type g = ''toggle'') \<or>
            (formEntry (target r) (val g) \<noteq> None \<and> type g = ''input''))"
proof -
  let ?goal = "deduceGoal now xs"
  let ?K = "traceBackward xs ?goal"
  let ?inK = "\<lambda>a. actionKey a \<in> set (map actionKey ?K)"
  from r have "r \<in> set (pruneNoise xs ?K)"
    by (auto simp: processRecording_def Let_def split: if_splits)
  then obtain T where T: "pick T (filter ?inK xs) = Some r"
    by (auto simp: set_pruneNoise)
  from pick_mem [OF T] have rT: "target r = T" and "r \<in> set (filter ?inK xs)"
    by blast+
  then obtain k where k: "k \<in> set ?K" "actionKey r = actionKey k"
    by auto
  from k(1) obtain T' where T': "pick T' (filter (goalMatch ?goal) xs) = Some k"
    by (auto simp: set_traceBackward)
  from pick_mem [OF T'] have "target k = T'" "k \<in> set (filter (goalMatch ?goal) xs)"
    by blast+
  moreover from k(2) have "target r = target k" using actionKey_inj by blast
  ultimately have "T' = T" "T \<in> necessaryTargets ?goal"
    using rT by (auto simp: goalMatch_def)
  from goal_record_matches [OF fits this(2)] obtain g where
    g: "pick T xs = Some g" "goalMatch ?goal g"
      "(taskDone T (val g) \<and> type g = ''toggle'') \<or> (formEntry T (val g) \<noteq> None \<and> type g = ''input'')"
    by blast
  from pick_filter [OF g(1), of "goalMatch ?goal"] g(2) T' \<open>T' = T\<close> have "k = g" by simp
  with k(1) have "?inK g" by simp
  from pick_filter [OF g(1), of ?inK] this T have "r = g" by simp
  with g rT show ?thesis by simp
qed

lemma refined_matches_own_goal:
  assumes fits: "\<forall>a\<in>set xs. valueFitsKind a"
    and r: "r \<in> set (processRecording now xs)"
  shows "goalMatch (deduceGoal now (processRecording now xs)) r"
proof -
  let ?R = "processRecording now xs"
  have own: "pick (target r) ?R = Some r"
    using pick_distinct [OF refined_distinct r] .
  from refined_is_goal_record [OF fits r] have
    "(taskDone (target r) (val r) \<and> type r = ''toggle'') \<or>
     (formEntry (target r) (val r) \<noteq> None \<and> type r = ''input'')"
    by auto
  then show ?thesis
  proof
    assume a: "taskDone (target r) (val r) \<and> type r = ''toggle''"
    with own have "target r \<in> set (completedTasks (deduceGoal now ?R))"
      by (simp add: deduceGoal_completed)
    with a show ?thesis
      by (simp add: goalMatch_def shouldKeep_def necessaryTargets_eq)
  next
    assume a: "formEntry (target r) (val r) \<noteq> None \<and> type r = ''input''"
    then obtain s where s: "formEntry (target r) (val r) = Some s" by auto
    then have v: "val r = Str s"
      by (auto simp: formEntry_def split: jsvalue.splits if_splits)
    from own s have m: "map_of (formValues (deduceGoal now ?R)) (target r) = Some s"
      by (simp add: deduceGoal_formValues)
    then have "target r \<in> fst ` set (formValues (deduceGoal now ?R))"
      by (metis map_of_eq_None_iff option.distinct(1))
    with a m v show ?thesis
      by (simp add: goalMatch_def shouldKeep_def necessaryTargets_eq propertyIs_def)
  qed
qed

subsection \<open>The kind of a record is not read by \<^verbatim>\<open>deduceGoal\<close>\<close>

lemma recordState_type: "recordState (a\<lparr>type := k\<rparr>) = recordState a"
  by (intro ext) (simp add: recordState_def split: option.splits)

lemma targetStatesOf_type:
  "targetStatesOf (map (\<lambda>a. a\<lparr>type := k a\<rparr>) actions) = targetStatesOf actions"
  by (simp add: targetStatesOf_def fold_map comp_def recordState_type)

subsection \<open>No stage raises\<close>

lemma buildStateE_returns: "buildStateE e fs = Inr (buildState e fs)"
  by (simp add: buildStateE_def buildState_def callTrim_def Let_def split: jsvalue.splits)

lemma forEachE_returns:
  "(\<And>x s. f x s = Inr (g x s)) \<Longrightarrow> forEachE f xs s = Inr (fold g xs s)"
  by (induction xs arbitrary: s) simp_all

lemma deduceGoalE_returns: "deduceGoalE now actions = Inr (deduceGoal now actions)"
  by (simp add: deduceGoalE_def deduceGoal_def forEachE_returns [OF buildStateE_returns])

lemma processRecordingE_returns:
  "processRecordingE now rawLog = Inr (processRecording now rawLog)"
  by (simp add: processRecordingE_def processRecording_def deduceGoalE_returns Let_def)

subsection \<open>When a retained value contributes nothing\<close>

lemma contributes_nothing_iff:
  assumes "map_of (targetStatesOf actions) T = Some (v, t)"
  shows "(T \<notin> set (completedTasks (deduceGoal now actions)) \<and>
          T \<notin> fst ` set (formValues (deduceGoal now actions))) \<longleftrightarrow>
         (v = Undefined \<or> v = Bool False \<or> (v = Bool True \<and> \<not> startsWith T ''task-'') \<or>
          (\<exists>s. v = Str s \<and> (trim s = '''' \<or> T = ''__proto__'')))"
proof -
  from assms obtain g where g: "pick T actions = Some g" "val g = v"
    by (auto simp: map_of_targetStatesOf stateOf_def)
  have c: "T \<in> set (completedTasks (deduceGoal now actions)) \<longleftrightarrow> taskDone T v"
    using g by (simp add: deduceGoal_completed)
  have "map_of (formValues (deduceGoal now actions)) T = formEntry T v"
    using g by (simp add: deduceGoal_formValues)
  then have f: "T \<in> fst ` set (formValues (deduceGoal now actions)) \<longleftrightarrow> formEntry T v \<noteq> None"
    by (metis map_of_eq_None_iff)
  have "(\<not> taskDone T v \<and> formEntry T v = None) \<longleftrightarrow>
         (v = Undefined \<or> v = Bool False \<or> (v = Bool True \<and> \<not> startsWith T ''task-'') \<or>
          (\<exists>s. v = Str s \<and> (trim s = '''' \<or> T = ''__proto__'')))"
    by (cases v) (auto simp: taskDone_def formEntry_def)
  with c f show ?thesis by simp
qed

section \<open>The claims\<close>

subsection \<open>C1: which record Goal Deduction retains for a target\<close>

text \<open>
  Claim C1, as stated: the record retained for a target is the one with the greatest
  \<open>timestamp\<close>, and of two records of the same target with the same \<open>timestamp\<close> the
  later one in the log wins. The second half fails: the loop replaces the retained
  state only when \<^verbatim>\<open>action.timestamp > existing.timestamp\<close>, so on a tie the earlier
  record stays. In the log below both records of \<open>name\<close> carry \<open>timestamp = 1\<close>; the
  state retained is that of the first (\<open>A\<close>), not that of the second (\<open>B\<close>).
\<close>

theorem deduceGoal_tie_counterexample:
  "map_of (targetStatesOf
     [\<lparr>type = ''input'', target = ''name'', val = Str ''A'', timestamp = 1\<rparr>,
      \<lparr>type = ''input'', target = ''name'', val = Str ''B'', timestamp = 1\<rparr>]) ''name''
     = Some (Str ''A'', 1) \<and>
   map_of (targetStatesOf
     [\<lparr>type = ''input'', target = ''name'', val = Str ''A'', timestamp = 1\<rparr>,
      \<lparr>type = ''input'', target = ''name'', val = Str ''B'', timestamp = 1\<rparr>]) ''name''
     \<noteq> Some (Str ''B'', 1) \<and>
   formValues (deduceGoal 0
     [\<lparr>type = ''input'', target = ''name'', val = Str ''A'', timestamp = 1\<rparr>,
      \<lparr>type = ''input'', target = ''name'', val = Str ''B'', timestamp = 1\<rparr>])
     = [(''name'', ''A'')]"
  by code_simp

text \<open>
  Claim C1, amended. For every log and every target \<open>T\<close> that occurs in it, the state
  retained for \<open>T\<close> is the value and timestamp of a record of \<open>T\<close> at some position
  \<open>i\<close> such that no record of \<open>T\<close> has a greater \<open>timestamp\<close> and every record of \<open>T\<close>
  before position \<open>i\<close> has a strictly smaller one: the greatest \<open>timestamp\<close> wins, and
  among records sharing it the one encountered first.
\<close>

theorem deduceGoal_retains_first_greatest:
  assumes "T \<in> target ` set actions"
  shows "\<exists>i<length actions. target (actions ! i) = T \<and>
     map_of (targetStatesOf actions) T = Some (val (actions ! i), timestamp (actions ! i)) \<and>
     (\<forall>j<length actions. target (actions ! j) = T \<longrightarrow>
        timestamp (actions ! j) \<le> timestamp (actions ! i)) \<and>
     (\<forall>j<i. target (actions ! j) = T \<longrightarrow> timestamp (actions ! j) < timestamp (actions ! i))"
proof -
  from assms obtain g where g: "pick T actions = Some g"
    using pick_None [of T actions] by (cases "pick T actions") auto
  from pick_splitD [OF g] obtain ys zs where
    split: "actions = ys @ g # zs" "target g = T"
      "\<forall>b\<in>set ys. target b = T \<longrightarrow> timestamp b < timestamp g"
      "\<forall>b\<in>set zs. target b = T \<longrightarrow> timestamp b \<le> timestamp g"
    by blast
  let ?i = "length ys"
  have i: "?i < length actions" "actions ! ?i = g" using split(1) by simp_all
  have st: "map_of (targetStatesOf actions) T = Some (val g, timestamp g)"
    using g by (simp add: map_of_targetStatesOf stateOf_def)
  have ge: "timestamp (actions ! j) \<le> timestamp g"
    if "j < length actions" "target (actions ! j) = T" for j
    using pick_greatest [OF g nth_mem [OF that(1)] that(2)] .
  have lt: "timestamp (actions ! j) < timestamp g"
    if "j < ?i" "target (actions ! j) = T" for j
  proof -
    from that(1) have "actions ! j = ys ! j" "ys ! j \<in> set ys"
      using split(1) by (simp_all add: nth_append)
    with split(3) that(2) show ?thesis by simp
  qed
  from i split(2) st ge lt show ?thesis by auto
qed

text \<open>The witness: the theorem at the log of Scenario A and its target \<open>task-1\<close>.\<close>

theorem deduceGoal_retains_first_greatest_witness:
  "''task-1'' \<in> target ` set
     [\<lparr>type = ''toggle'', target = ''task-1'', val = Bool True, timestamp = 10\<rparr>,
      \<lparr>type = ''toggle'', target = ''task-1'', val = Bool False, timestamp = 5\<rparr>] \<and>
   (\<exists>i<length
       [\<lparr>type = ''toggle'', target = ''task-1'', val = Bool True, timestamp = 10\<rparr>,
        \<lparr>type = ''toggle'', target = ''task-1'', val = Bool False, timestamp = 5\<rparr>].
     target
       ([\<lparr>type = ''toggle'', target = ''task-1'', val = Bool True, timestamp = 10\<rparr>,
         \<lparr>type = ''toggle'', target = ''task-1'', val = Bool False, timestamp = 5\<rparr>] ! i)
       = ''task-1'' \<and>
     map_of (targetStatesOf
       [\<lparr>type = ''toggle'', target = ''task-1'', val = Bool True, timestamp = 10\<rparr>,
        \<lparr>type = ''toggle'', target = ''task-1'', val = Bool False, timestamp = 5\<rparr>]) ''task-1''
       = Some
          (val
            ([\<lparr>type = ''toggle'', target = ''task-1'', val = Bool True, timestamp = 10\<rparr>,
              \<lparr>type = ''toggle'', target = ''task-1'', val = Bool False, timestamp = 5\<rparr>] ! i),
           timestamp
            ([\<lparr>type = ''toggle'', target = ''task-1'', val = Bool True, timestamp = 10\<rparr>,
              \<lparr>type = ''toggle'', target = ''task-1'', val = Bool False, timestamp = 5\<rparr>] ! i)))"
proof -
  have h: "''task-1'' \<in> target ` set
     [\<lparr>type = ''toggle'', target = ''task-1'', val = Bool True, timestamp = 10\<rparr>,
      \<lparr>type = ''toggle'', target = ''task-1'', val = Bool False, timestamp = 5\<rparr>]"
    by simp
  from deduceGoal_retains_first_greatest [OF h] h show ?thesis by blast
qed

subsection \<open>C2: the string written to the form-values mapping\<close>

text \<open>
  Claim C2, as stated: a target whose final value is a string that is non-empty after
  trimming is mapped to the trimmed value. It fails: the source writes
  \<^verbatim>\<open>finalState.formValues[target] = state.value\<close>, the untrimmed string; \<^verbatim>\<open>trim\<close> is
  used for the emptiness test only. For the single record \<open>name \<mapsto> " Bob "\<close> the
  mapping holds \<open>" Bob "\<close>, not \<open>"Bob"\<close>.
\<close>

theorem deduceGoal_trim_counterexample:
  "map_of (targetStatesOf
     [\<lparr>type = ''input'', target = ''name'', val = Str '' Bob '', timestamp = 1\<rparr>]) ''name''
     = Some (Str '' Bob '', 1) \<and>
   trim '' Bob '' = ''Bob'' \<and>
   map_of (formValues (deduceGoal 0
     [\<lparr>type = ''input'', target = ''name'', val = Str '' Bob '', timestamp = 1\<rparr>])) ''name''
     = Some '' Bob '' \<and>
   map_of (formValues (deduceGoal 0
     [\<lparr>type = ''input'', target = ''name'', val = Str '' Bob '', timestamp = 1\<rparr>])) ''name''
     \<noteq> Some (trim '' Bob '')"
  by code_simp

text \<open>
  Claim C2, amended. For every log, when the value retained for a target is a string
  that is non-empty after trimming, the form-values mapping maps the target to that
  string as it was recorded, untrimmed. (The target named \<^verbatim>\<open>__proto__\<close> is set aside:
  a plain object takes no string under that name.)
\<close>

theorem deduceGoal_keeps_untrimmed:
  assumes "map_of (targetStatesOf actions) T = Some (Str s, t)"
    and "trim s \<noteq> ''''" and "T \<noteq> ''__proto__''"
  shows "map_of (formValues (deduceGoal now actions)) T = Some s"
proof -
  from assms(1) obtain g where "pick T actions = Some g" "val g = Str s"
    by (auto simp: map_of_targetStatesOf stateOf_def)
  with assms(2,3) show ?thesis
    by (simp add: deduceGoal_formValues formEntry_def)
qed

theorem deduceGoal_keeps_untrimmed_witness:
  "map_of (targetStatesOf
     [\<lparr>type = ''input'', target = ''email'', val = Str ''a@x.com '', timestamp = 1\<rparr>]) ''email''
     = Some (Str ''a@x.com '', 1) \<and>
   trim ''a@x.com '' \<noteq> '''' \<and> ''email'' \<noteq> ''__proto__'' \<and>
   map_of (formValues (deduceGoal 0
     [\<lparr>type = ''input'', target = ''email'', val = Str ''a@x.com '', timestamp = 1\<rparr>])) ''email''
     = Some ''a@x.com ''"
proof -
  have a: "map_of (targetStatesOf
     [\<lparr>type = ''input'', target = ''email'', val = Str ''a@x.com '', timestamp = 1\<rparr>]) ''email''
     = Some (Str ''a@x.com '', 1)" by code_simp
  have b: "trim ''a@x.com '' \<noteq> ''''" by code_simp
  have c: "''email'' \<noteq> ''__proto__''" by simp
  from deduceGoal_keeps_untrimmed [OF a b c, of 0] a b c show ?thesis by blast
qed

subsection \<open>C3: malformed records\<close>

text \<open>
  Claim C3, as stated: a record with an unrecognised kind, or with a value of the wrong
  type for its kind, contributes nothing to the Terminal State. It fails on the claim's
  own examples: \<^verbatim>\<open>deduceGoal\<close> never reads \<^verbatim>\<open>action.type\<close>, so a pointer-activation
  carrying \<^verbatim>\<open>true\<close> on \<open>task-1\<close> puts \<open>task-1\<close> into completed-tasks, and a state-toggle
  carrying the string \<open>hello\<close> on \<open>note\<close> puts \<open>note \<mapsto> hello\<close> into form-values.
\<close>

theorem deduceGoal_malformed_counterexample:
  "''task-1'' \<in> set (completedTasks (deduceGoal 0
     [\<lparr>type = ''click'', target = ''task-1'', val = Bool True, timestamp = 1\<rparr>])) \<and>
   map_of (formValues (deduceGoal 0
     [\<lparr>type = ''toggle'', target = ''note'', val = Str ''hello'', timestamp = 1\<rparr>])) ''note''
     = Some ''hello''"
  by code_simp

text \<open>
  Claim C3, amended. Goal Deduction does not validate records and never reads their
  kind: replacing the kinds of the records of a log by any others leaves the Terminal
  State unchanged (first conjunct), so a record with an unrecognised kind, or with a
  value of the wrong type for its kind, contributes what any record with the same
  target, value and timestamp contributes. The record retained for a target contributes
  nothing (its target is neither in completed-tasks nor a key of form-values) exactly
  when its value is absent, is \<^verbatim>\<open>false\<close>, is \<^verbatim>\<open>true\<close> on a target without the prefix
  \<^verbatim>\<open>task-\<close>, or is a string that is empty after trimming or sits on the target
  \<^verbatim>\<open>__proto__\<close> (second conjunct). The pipeline never raises on such a record: on every
  log, Goal Deduction and the orchestrator return, with the result the total functions
  compute (third and fourth conjuncts).
\<close>

theorem deduceGoal_ignores_kind:
  "deduceGoal now (map (\<lambda>a. a\<lparr>type := k a\<rparr>) actions) = deduceGoal now actions \<and>
   (map_of (targetStatesOf actions) T = Some (v, t) \<longrightarrow>
      ((T \<notin> set (completedTasks (deduceGoal now actions)) \<and>
        T \<notin> fst ` set (formValues (deduceGoal now actions))) \<longleftrightarrow>
       (v = Undefined \<or> v = Bool False \<or> (v = Bool True \<and> \<not> startsWith T ''task-'') \<or>
        (\<exists>s. v = Str s \<and> (trim s = '''' \<or> T = ''__proto__''))))) \<and>
   deduceGoalE now actions = Inr (deduceGoal now actions) \<and>
   processRecordingE now actions = Inr (processRecording now actions)"
proof (intro conjI impI)
  show "deduceGoal now (map (\<lambda>a. a\<lparr>type := k a\<rparr>) actions) = deduceGoal now actions"
    by (simp add: deduceGoal_def targetStatesOf_type)
  show "deduceGoalE now actions = Inr (deduceGoal now actions)"
    by (rule deduceGoalE_returns)
  show "processRecordingE now actions = Inr (processRecording now actions)"
    by (rule processRecordingE_returns)
next
  assume "map_of (targetStatesOf actions) T = Some (v, t)"
  then show "(T \<notin> set (completedTasks (deduceGoal now actions)) \<and>
        T \<notin> fst ` set (formValues (deduceGoal now actions))) \<longleftrightarrow>
       (v = Undefined \<or> v = Bool False \<or> (v = Bool True \<and> \<not> startsWith T ''task-'') \<or>
        (\<exists>s. v = Str s \<and> (trim s = '''' \<or> T = ''__proto__'')))"
    by (rule contributes_nothing_iff)
qed

text \<open>
  The witness: a pointer-activation of \<open>save\<close> carrying \<^verbatim>\<open>true\<close>. Relabelled as a
  state-toggle it gives the same Terminal State; \<open>save\<close> has no prefix \<^verbatim>\<open>task-\<close>, so it
  is in neither part of the Terminal State; Goal Deduction returns, and the orchestrator
  returns the empty script.
\<close>

theorem deduceGoal_ignores_kind_witness:
  "deduceGoal 0 (map (\<lambda>a. a\<lparr>type := ''toggle''\<rparr>)
     [\<lparr>type = ''click'', target = ''save'', val = Bool True, timestamp = 4\<rparr>])
     = deduceGoal 0
     [\<lparr>type = ''click'', target = ''save'', val = Bool True, timestamp = 4\<rparr>] \<and>
   map_of (targetStatesOf
     [\<lparr>type = ''click'', target = ''save'', val = Bool True, timestamp = 4\<rparr>]) ''save''
     = Some (Bool True, 4) \<and>
   \<not> startsWith ''save'' ''task-'' \<and>
   ''save'' \<notin> set (completedTasks (deduceGoal 0
     [\<lparr>type = ''click'', target = ''save'', val = Bool True, timestamp = 4\<rparr>])) \<and>
   ''save'' \<notin> fst ` set (formValues (deduceGoal 0
     [\<lparr>type = ''click'', target = ''save'', val = Bool True, timestamp = 4\<rparr>])) \<and>
   deduceGoalE 0
     [\<lparr>type = ''click'', target = ''save'', val = Bool True, timestamp = 4\<rparr>]
     = Inr (deduceGoal 0
     [\<lparr>type = ''click'', target = ''save'', val = Bool True, timestamp = 4\<rparr>]) \<and>
   processRecordingE 0
     [\<lparr>type = ''click'', target = ''save'', val = Bool True, timestamp = 4\<rparr>]
     = Inr []"
proof -
  have a: "map_of (targetStatesOf
     [\<lparr>type = ''click'', target = ''save'', val = Bool True, timestamp = 4\<rparr>]) ''save''
     = Some (Bool True, 4)" by code_simp
  have b: "\<not> startsWith ''save'' ''task-''" by code_simp
  have c: "processRecording 0
     [\<lparr>type = ''click'', target = ''save'', val = Bool True, timestamp = 4\<rparr>] = []"
    by code_simp
  from deduceGoal_ignores_kind
    [of 0 "\<lambda>a. ''toggle''"
        "[\<lparr>type = ''click'', target = ''save'', val = Bool True, timestamp = 4\<rparr>]"
        "''save''" "Bool True" 4]
    a b c
  show ?thesis by simp
qed

subsection \<open>C4: refining a Refined Script\<close>

text \<open>
  Claim C4, as stated: for every log \<open>L\<close>, refining \<open>processRecording L\<close> again gives
  \<open>processRecording L\<close>. It fails for a log in which the value that decides the goal
  sits on a record of another kind: the goal comes from the pointer-activation
  carrying \<^verbatim>\<open>true\<close> at \<open>t = 10\<close>, the record kept is the state-toggle carrying
  \<^verbatim>\<open>false\<close> at \<open>t = 5\<close>, and that record alone deduces an empty goal, so the second
  refinement is empty.
\<close>

theorem rerefine_counterexample:
  "processRecording 0
     [\<lparr>type = ''toggle'', target = ''task-1'', val = Bool False, timestamp = 5\<rparr>,
      \<lparr>type = ''click'', target = ''task-1'', val = Bool True, timestamp = 10\<rparr>]
     = [\<lparr>type = ''toggle'', target = ''task-1'', val = Bool False, timestamp = 5\<rparr>] \<and>
   processRecording 0 (processRecording 0
     [\<lparr>type = ''toggle'', target = ''task-1'', val = Bool False, timestamp = 5\<rparr>,
      \<lparr>type = ''click'', target = ''task-1'', val = Bool True, timestamp = 10\<rparr>])
     = [] \<and>
   processRecording 0 (processRecording 0
     [\<lparr>type = ''toggle'', target = ''task-1'', val = Bool False, timestamp = 5\<rparr>,
      \<lparr>type = ''click'', target = ''task-1'', val = Bool True, timestamp = 10\<rparr>])
     \<noteq> processRecording 0
     [\<lparr>type = ''toggle'', target = ''task-1'', val = Bool False, timestamp = 5\<rparr>,
      \<lparr>type = ''click'', target = ''task-1'', val = Bool True, timestamp = 10\<rparr>]"
  by code_simp

text \<open>
  Claim C4, amended. Re-refinement is a fixed point for every log in which the value
  of each record fits its kind (every record carrying \<^verbatim>\<open>true\<close> is a state-toggle and
  every record carrying a string is a text-input; in particular for every log whose
  values have the type of their kind): then
  \<open>processRecording (processRecording L) = processRecording L\<close>.
\<close>

theorem rerefine_fixed_point:
  assumes "\<forall>a\<in>set rawLog. valueFitsKind a"
  shows "processRecording now (processRecording now rawLog) = processRecording now rawLog"
  by (subst rerefine_filter) (simp add: refined_matches_own_goal [OF assms])

text \<open>
  The witness: a log of five records on three targets (a task ticked, a field typed
  twice, a task ticked and unticked), whose refinement keeps two records.
\<close>

theorem rerefine_fixed_point_witness:
  "processRecording 0
     [\<lparr>type = ''toggle'', target = ''task-1'', val = Bool True, timestamp = 1\<rparr>,
      \<lparr>type = ''input'', target = ''name'', val = Str ''Bo'', timestamp = 2\<rparr>,
      \<lparr>type = ''toggle'', target = ''task-2'', val = Bool True, timestamp = 3\<rparr>,
      \<lparr>type = ''input'', target = ''name'', val = Str ''Bob'', timestamp = 4\<rparr>,
      \<lparr>type = ''toggle'', target = ''task-2'', val = Bool False, timestamp = 5\<rparr>]
     = [\<lparr>type = ''toggle'', target = ''task-1'', val = Bool True, timestamp = 1\<rparr>,
        \<lparr>type = ''input'', target = ''name'', val = Str ''Bob'', timestamp = 4\<rparr>] \<and>
   processRecording 0 (processRecording 0
     [\<lparr>type = ''toggle'', target = ''task-1'', val = Bool True, timestamp = 1\<rparr>,
      \<lparr>type = ''input'', target = ''name'', val = Str ''Bo'', timestamp = 2\<rparr>,
      \<lparr>type = ''toggle'', target = ''task-2'', val = Bool True, timestamp = 3\<rparr>,
      \<lparr>type = ''input'', target = ''name'', val = Str ''Bob'', timestamp = 4\<rparr>,
      \<lparr>type = ''toggle'', target = ''task-2'', val = Bool False, timestamp = 5\<rparr>])
     = processRecording 0
     [\<lparr>type = ''toggle'', target = ''task-1'', val = Bool True, timestamp = 1\<rparr>,
      \<lparr>type = ''input'', target = ''name'', val = Str ''Bo'', timestamp = 2\<rparr>,
      \<lparr>type = ''toggle'', target = ''task-2'', val = Bool True, timestamp = 3\<rparr>,
      \<lparr>type = ''input'', target = ''name'', val = Str ''Bob'', timestamp = 4\<rparr>,
      \<lparr>type = ''toggle'', target = ''task-2'', val = Bool False, timestamp = 5\<rparr>]"
proof -
  have fits: "\<forall>a\<in>set
     [\<lparr>type = ''toggle'', target = ''task-1'', val = Bool True, timestamp = 1\<rparr>,
      \<lparr>type = ''input'', target = ''name'', val = Str ''Bo'', timestamp = 2\<rparr>,
      \<lparr>type = ''toggle'', target = ''task-2'', val = Bool True, timestamp = 3\<rparr>,
      \<lparr>type = ''input'', target = ''name'', val = Str ''Bob'', timestamp = 4\<rparr>,
      \<lparr>type = ''toggle'', target = ''task-2'', val = Bool False, timestamp = 5\<rparr>].
     valueFitsKind a"
    by (simp add: valueFitsKind_def)
  have run: "processRecording 0
     [\<lparr>type = ''toggle'', target = ''task-1'', val = Bool True, timestamp = 1\<rparr>,
      \<lparr>type = ''input'', target = ''name'', val = Str ''Bo'', timestamp = 2\<rparr>,
      \<lparr>type = ''toggle'', target = ''task-2'', val = Bool True, timestamp = 3\<rparr>,
      \<lparr>type = ''input'', target = ''name'', val = Str ''Bob'', timestamp = 4\<rparr>,
      \<lparr>type = ''toggle'', target = ''task-2'', val = Bool False, timestamp = 5\<rparr>]
     = [\<lparr>type = ''toggle'', target = ''task-1'', val = Bool True, timestamp = 1\<rparr>,
        \<lparr>type = ''input'', target = ''name'', val = Str ''Bob'', timestamp = 4\<rparr>]"
    by code_simp
  from rerefine_fixed_point [OF fits, of 0] run show ?thesis by blast
qed

subsection \<open>C5: a record that fails the match test is skipped\<close>

lemma scenario_C_at_0:
  "processRecording 0
     [\<lparr>type = ''input'', target = ''name'', val = Str ''Bob'', timestamp = 1\<rparr>,
      \<lparr>type = ''input'', target = ''name'', val = Str ''Bob and Alice'', timestamp = 2\<rparr>,
      \<lparr>type = ''input'', target = ''name'', val = Str ''Bob'', timestamp = 3\<rparr>]
   = [\<lparr>type = ''input'', target = ''name'', val = Str ''Bob'', timestamp = 3\<rparr>]"
  by code_simp

text \<open>
  Claim C5. In Backward Tracing a record that fails the goal-match test leaves the
  table of best candidates as it was (first conjunct), so the Keep-List is the one
  computed from the matching records alone: a non-matching record, wherever it stands,
  displaces no earlier matching record (second conjunct). Refining the log of
  Scenario C yields exactly the record written at \<open>t = 3\<close> (third conjunct).
\<close>

theorem traceBackward_skips_mismatch:
  "(\<not> shouldKeep goal a \<longrightarrow> traceStep goal a m = m) \<and>
   traceBackward actions goal = traceBackward (filter (shouldKeep goal) actions) goal \<and>
   processRecording now
     [\<lparr>type = ''input'', target = ''name'', val = Str ''Bob'', timestamp = 1\<rparr>,
      \<lparr>type = ''input'', target = ''name'', val = Str ''Bob and Alice'', timestamp = 2\<rparr>,
      \<lparr>type = ''input'', target = ''name'', val = Str ''Bob'', timestamp = 3\<rparr>]
   = [\<lparr>type = ''input'', target = ''name'', val = Str ''Bob'', timestamp = 3\<rparr>]"
proof (intro conjI)
  show "\<not> shouldKeep goal a \<longrightarrow> traceStep goal a m = m"
    by (simp add: traceStep_def split: option.splits)
  have "filter (goalMatch goal) (filter (shouldKeep goal) actions) = filter (goalMatch goal) actions"
    by (auto simp: goalMatch_def intro: filter_cong)
  then show "traceBackward actions goal = traceBackward (filter (shouldKeep goal) actions) goal"
    by (simp add: traceBackward_unique)
  show "processRecording now
     [\<lparr>type = ''input'', target = ''name'', val = Str ''Bob'', timestamp = 1\<rparr>,
      \<lparr>type = ''input'', target = ''name'', val = Str ''Bob and Alice'', timestamp = 2\<rparr>,
      \<lparr>type = ''input'', target = ''name'', val = Str ''Bob'', timestamp = 3\<rparr>]
   = [\<lparr>type = ''input'', target = ''name'', val = Str ''Bob'', timestamp = 3\<rparr>]"
    using scenario_C_at_0 by (simp only: processRecording_now [of now _ 0])
qed

text \<open>
  The witness: with the goal \<open>name \<mapsto> Bob\<close> and the record of \<open>t = 1\<close> as the
  candidate, the record of \<open>t = 2\<close> carrying \<open>Bob and Alice\<close> fails the test and the
  candidate stays.
\<close>

theorem traceBackward_skips_mismatch_witness:
  "\<not> shouldKeep
       \<lparr>completedTasks = [], formValues = [(''name'', ''Bob'')], timestamp = 0\<rparr>
       \<lparr>type = ''input'', target = ''name'', val = Str ''Bob and Alice'', timestamp = 2\<rparr> \<and>
   traceStep
       \<lparr>completedTasks = [], formValues = [(''name'', ''Bob'')], timestamp = 0\<rparr>
       \<lparr>type = ''input'', target = ''name'', val = Str ''Bob and Alice'', timestamp = 2\<rparr>
       [(''name'', \<lparr>type = ''input'', target = ''name'', val = Str ''Bob'', timestamp = 1\<rparr>)]
     = [(''name'', \<lparr>type = ''input'', target = ''name'', val = Str ''Bob'', timestamp = 1\<rparr>)]"
proof -
  have h: "\<not> shouldKeep
       \<lparr>completedTasks = [], formValues = [(''name'', ''Bob'')], timestamp = 0\<rparr>
       \<lparr>type = ''input'', target = ''name'', val = Str ''Bob and Alice'', timestamp = 2\<rparr>"
    by (simp add: shouldKeep_def propertyIs_def)
  with traceBackward_skips_mismatch
    [of "\<lparr>completedTasks = [], formValues = [(''name'', ''Bob'')], timestamp = 0\<rparr>"
        "\<lparr>type = ''input'', target = ''name'', val = Str ''Bob and Alice'', timestamp = 2\<rparr>"
        "[(''name'', \<lparr>type = ''input'', target = ''name'', val = Str ''Bob'', timestamp = 1\<rparr>)]"
        "[]" 0]
  show ?thesis by blast
qed

subsection \<open>C6: no target twice in the Refined Script\<close>

text \<open>
  Claim C6. For every input log, no two records of \<open>processRecording\<close>'s result share
  a target: the list of targets of the result has no repetition.
\<close>

theorem processRecording_target_unique:
  "distinct (map target (processRecording now rawLog))"
  by (simp add: processRecording_def pruneNoise_distinct Let_def)

theorem processRecording_target_unique_witness:
  "distinct (map target (processRecording 0
     [\<lparr>type = ''toggle'', target = ''task-1'', val = Bool True, timestamp = 10\<rparr>,
      \<lparr>type = ''toggle'', target = ''task-1'', val = Bool False, timestamp = 5\<rparr>]))"
  by (rule processRecording_target_unique)

subsection \<open>C7: the Refined Script is in chronological order\<close>

text \<open>
  Claim C7. For every input log, the result of \<open>processRecording\<close> is sorted ascending
  by \<open>timestamp\<close>.
\<close>

theorem processRecording_sorted:
  "sorted (map timestamp (processRecording now rawLog))"
  by (simp add: processRecording_def pruneNoise_def Let_def)

theorem processRecording_sorted_witness:
  "sorted (map timestamp (processRecording 0
     [\<lparr>type = ''input'', target = ''name'', val = Str ''Bob'', timestamp = 7\<rparr>,
      \<lparr>type = ''toggle'', target = ''task-1'', val = Bool True, timestamp = 3\<rparr>]))"
  by (rule processRecording_sorted)

subsection \<open>C8: the orchestrator does not depend on the wall clock\<close>

text \<open>
  Claim C8. \<open>processRecording\<close> is a function of the log alone: the reading of the wall
  clock that \<open>deduceGoal\<close> stores in the Terminal State is compared with no timestamp
  of a record, so two invocations on equal logs, at whatever clock readings
  \<open>now\<close> and \<open>now'\<close>, return equal Refined Scripts.
\<close>

theorem processRecording_clock_independent:
  "processRecording now rawLog = processRecording now' rawLog"
  by (rule processRecording_now)

theorem processRecording_clock_independent_witness:
  "processRecording 1700000000000
     [\<lparr>type = ''toggle'', target = ''task-1'', val = Bool True, timestamp = 10\<rparr>]
   = processRecording 1700000000001
     [\<lparr>type = ''toggle'', target = ''task-1'', val = Bool True, timestamp = 10\<rparr>]"
  by (rule processRecording_clock_independent)

subsection \<open>C9: Goal Deduction and the wall clock\<close>

text \<open>
  Claim C9, as stated: two invocations of \<^verbatim>\<open>deduceGoal\<close> on the same actions return
  Terminal States equal in every field, the timestamp field included. It fails: the
  field is \<^verbatim>\<open>Date.now()\<close>, read at each invocation, so two invocations one
  millisecond apart on the same actions return different Terminal States.
\<close>

theorem deduceGoal_clock_counterexample:
  "deduceGoal 1700000000000
     [\<lparr>type = ''toggle'', target = ''task-1'', val = Bool True, timestamp = 10\<rparr>]
   \<noteq> deduceGoal 1700000000001
     [\<lparr>type = ''toggle'', target = ''task-1'', val = Bool True, timestamp = 10\<rparr>]"
  by code_simp

text \<open>
  Claim C9, amended. Two invocations of \<^verbatim>\<open>deduceGoal\<close> on the same actions return
  Terminal States with equal completed-tasks and equal form-values; the timestamp
  field is the reading of the wall clock at the invocation.
\<close>

theorem deduceGoal_deterministic_up_to_clock:
  "completedTasks (deduceGoal now actions) = completedTasks (deduceGoal now' actions) \<and>
   formValues (deduceGoal now actions) = formValues (deduceGoal now' actions) \<and>
   FinalState.timestamp (deduceGoal now actions) = now"
  by (subst (1 3 5) deduceGoal_now, subst (2 4) deduceGoal_now) simp

theorem deduceGoal_deterministic_up_to_clock_witness:
  "completedTasks (deduceGoal 1700000000000
     [\<lparr>type = ''toggle'', target = ''task-1'', val = Bool True, timestamp = 10\<rparr>])
   = completedTasks (deduceGoal 1700000000001
     [\<lparr>type = ''toggle'', target = ''task-1'', val = Bool True, timestamp = 10\<rparr>]) \<and>
   formValues (deduceGoal 1700000000000
     [\<lparr>type = ''toggle'', target = ''task-1'', val = Bool True, timestamp = 10\<rparr>])
   = formValues (deduceGoal 1700000000001
     [\<lparr>type = ''toggle'', target = ''task-1'', val = Bool True, timestamp = 10\<rparr>]) \<and>
   FinalState.timestamp (deduceGoal 1700000000000
     [\<lparr>type = ''toggle'', target = ''task-1'', val = Bool True, timestamp = 10\<rparr>])
   = 1700000000000"
  by (rule deduceGoal_deterministic_up_to_clock)

subsection \<open>C10: the match test of a state-toggle does not read its value\<close>

lemma toggle_false_kept_at_0:
  "processRecording 0
     [\<lparr>type = ''toggle'', target = ''task-1'', val = Bool False, timestamp = 5\<rparr>,
      \<lparr>type = ''click'', target = ''task-1'', val = Bool True, timestamp = 10\<rparr>]
   = [\<lparr>type = ''toggle'', target = ''task-1'', val = Bool False, timestamp = 5\<rparr>]"
  by code_simp

text \<open>
  Claim C10. For a state-toggle record the goal-match test is exactly the membership
  of its target in completed-tasks, and the test gives the same answer whatever value
  the record carries. Consequently the log made of a state-toggle of \<open>task-1\<close> with
  value \<^verbatim>\<open>false\<close> at \<open>t = 5\<close> and a pointer-activation of \<open>task-1\<close> carrying \<^verbatim>\<open>true\<close> at
  \<open>t = 10\<close> is refined to the single state-toggle record whose value is \<^verbatim>\<open>false\<close>.
\<close>

theorem toggle_match_ignores_value:
  "(type a = ''toggle'' \<longrightarrow>
      shouldKeep goal a = (target a \<in> set (completedTasks goal)) \<and>
      shouldKeep goal (a\<lparr>val := v\<rparr>) = shouldKeep goal a) \<and>
   processRecording now
     [\<lparr>type = ''toggle'', target = ''task-1'', val = Bool False, timestamp = 5\<rparr>,
      \<lparr>type = ''click'', target = ''task-1'', val = Bool True, timestamp = 10\<rparr>]
   = [\<lparr>type = ''toggle'', target = ''task-1'', val = Bool False, timestamp = 5\<rparr>]"
proof (intro conjI impI)
  assume "type a = ''toggle''"
  then show "shouldKeep goal a = (target a \<in> set (completedTasks goal))"
    and "shouldKeep goal (a\<lparr>val := v\<rparr>) = shouldKeep goal a"
    by (simp_all add: shouldKeep_def)
next
  show "processRecording now
     [\<lparr>type = ''toggle'', target = ''task-1'', val = Bool False, timestamp = 5\<rparr>,
      \<lparr>type = ''click'', target = ''task-1'', val = Bool True, timestamp = 10\<rparr>]
   = [\<lparr>type = ''toggle'', target = ''task-1'', val = Bool False, timestamp = 5\<rparr>]"
    using toggle_false_kept_at_0 by (simp only: processRecording_now [of now _ 0])
qed

text \<open>
  The witness: with \<open>task-1\<close> completed, the state-toggle of \<open>task-1\<close> carrying
  \<^verbatim>\<open>false\<close> passes the test, as does the same record carrying \<^verbatim>\<open>true\<close>.
\<close>

theorem toggle_match_ignores_value_witness:
  "type \<lparr>type = ''toggle'', target = ''task-1'', val = Bool False, timestamp = 5\<rparr> = ''toggle'' \<and>
   shouldKeep \<lparr>completedTasks = [''task-1''], formValues = [], timestamp = 0\<rparr>
     \<lparr>type = ''toggle'', target = ''task-1'', val = Bool False, timestamp = 5\<rparr> \<and>
   shouldKeep \<lparr>completedTasks = [''task-1''], formValues = [], timestamp = 0\<rparr>
     (\<lparr>type = ''toggle'', target = ''task-1'', val = Bool False, timestamp = 5\<rparr>
        \<lparr>val := Bool True\<rparr>)"
  using toggle_match_ignores_value
    [of "\<lparr>type = ''toggle'', target = ''task-1'', val = Bool False, timestamp = 5\<rparr>"
        "\<lparr>completedTasks = [''task-1''], formValues = [], timestamp = 0\<rparr>"
        "Bool True" 0]
  by simp

end
